theory Spec2Isabelle
  imports Complex_Main "HOL-Library.List_Lexorder" "HOL-Library.Char_ord"
begin

section \<open>Common Python notions\<close>

text \<open>
  Exceptions of the workers are values: a function that can raise returns
  \<open>error + 'a\<close>, with \<open>Inl\<close> carrying the exception. Python floats
  (scores, confidences) are modelled as exact reals; strings are lists of characters, one
  \<open>char\<close> per Python character.
\<close>

datatype error = KeyError string | IndexError | ProviderError string

text \<open>The slice \<^verbatim>\<open>xs[:n]\<close>: a negative bound counts from the end of the list.\<close>

definition py_slice_to :: "int \<Rightarrow> 'a list \<Rightarrow> 'a list" where
  "py_slice_to n xs =
     (if 0 \<le> n then take (nat n) xs else take (length xs - nat (- n)) xs)"

text \<open>\<^verbatim>\<open>sep.join(parts)\<close>.\<close>

fun join :: "string \<Rightarrow> string list \<Rightarrow> string" where
  "join sep [] = []"
| "join sep [p] = p"
| "join sep (p # q # ps) = p @ sep @ join sep (q # ps)"

text \<open>\<^verbatim>\<open>str(n)\<close> for a non-negative integer, as the f-strings print a counter.\<close>

definition digit_char :: "nat \<Rightarrow> char" where
  "digit_char d = ''0123456789'' ! d"

fun str_nat :: "nat \<Rightarrow> string" where
  "str_nat n = (if n < 10 then [digit_char n] else str_nat (n div 10) @ [digit_char (n mod 10)])"

declare str_nat.simps [simp del]

text \<open>An optional value inside an f-string: \<^verbatim>\<open>None\<close> prints as \<^verbatim>\<open>None\<close>.\<close>

definition fmt_opt :: "string option \<Rightarrow> string" where
  "fmt_opt s = (case s of None \<Rightarrow> ''None'' | Some t \<Rightarrow> t)"

section \<open>The RAG worker (rag\_worker.py)\<close>

subsection \<open>Data\<close>

text \<open>
  An evidence item is a dictionary. The keys \<^verbatim>\<open>type\<close>, \<^verbatim>\<open>content\<close>,
  \<^verbatim>\<open>document_id\<close> and \<^verbatim>\<open>score\<close> are read with \<^verbatim>\<open>ev[...]\<close> on every
  path and are fields; \<^verbatim>\<open>chunk_id\<close>, \<^verbatim>\<open>table_id\<close>, \<^verbatim>\<open>page\<close>,
  \<^verbatim>\<open>source\<close> and \<^verbatim>\<open>title\<close> are present on some items only and are optional.
\<close>

record evidence =
  ev_type :: string
  content :: string
  document_id :: string
  chunk_id :: "string option"
  table_id :: "string option"
  page :: "int option"
  score :: real
  source :: "string option"
  title :: "string option"

record plan =
  approach :: string
  evidence_types :: "string list"
  max_evidence :: int
  citation_strategy :: string
  confidence_threshold :: real

record citation =
  c_type :: string
  c_document_id :: string
  c_page :: "int option"
  snippet :: string
  c_score :: real
  c_chunk_id :: "string option"
  c_table_id :: "string option"

text \<open>
  The \<^verbatim>\<open>reasoning\<close> dictionary: the insufficient-evidence answer carries only
  \<^verbatim>\<open>approach\<close> and \<^verbatim>\<open>evidence_count\<close>. \<^verbatim>\<open>evidence_types\<close> is
  \<^verbatim>\<open>list(set(...))\<close>, whose order Python does not fix, so it is a set here.
\<close>

record reasoning =
  r_approach :: string
  evidence_count :: nat
  r_evidence_types :: "string set option"
  avg_evidence_score :: "real option"

record answer =
  answer_text :: string
  confidence :: real
  citations :: "citation list"
  answer_reasoning :: reasoning

record question_data =
  session_id :: "string option"
  question :: "string option"
  workspace_id :: "string option"

record rag_result =
  res_session_id :: "string option"
  res_answer :: string
  res_confidence :: real
  res_citations :: "citation list"
  res_reasoning :: reasoning
  evidence_used :: nat

subsection \<open>plan\_answer\<close>

definition plan_answer :: "string option \<Rightarrow> string option \<Rightarrow> plan" where
  "plan_answer q w =
     \<lparr> approach = ''hybrid_retrieval'',
       evidence_types = [''text_chunks'', ''tables'', ''figures''],
       max_evidence = 5,
       citation_strategy = ''evidence_gating'',
       confidence_threshold = 0.7 \<rparr>"

subsection \<open>retrieve\_evidence\<close>

definition text_evidence :: "evidence list" where
  "text_evidence =
     [ \<lparr> ev_type = ''text_chunk'',
         content = ''Sample text evidence that might be relevant to the question.'',
         document_id = ''doc-1'', chunk_id = Some ''chunk-1'', table_id = None,
         page = Some 1, score = 0.85, source = Some ''abstract'', title = None \<rparr>,
       \<lparr> ev_type = ''text_chunk'',
         content = ''Another piece of evidence from the methods section.'',
         document_id = ''doc-1'', chunk_id = Some ''chunk-2'', table_id = None,
         page = Some 3, score = 0.72, source = Some ''methods'', title = None \<rparr> ]"

definition table_evidence :: "evidence list" where
  "table_evidence =
     [ \<lparr> ev_type = ''table'',
         content = ''Sample table data'',
         document_id = ''doc-1'', chunk_id = None, table_id = Some ''table-1'',
         page = Some 5, score = 0.68, source = None,
         title = Some ''Experimental Results'' \<rparr> ]"

text \<open>
  \<^verbatim>\<open>evidence.sort(key=lambda x: x['score'], reverse=True)\<close>: Python's sort is
  stable also with \<^verbatim>\<open>reverse=True\<close>, so items of equal score keep their order.
  A stable ascending sort on the negated score is the same permutation.
\<close>

definition sort_by_score_desc :: "evidence list \<Rightarrow> evidence list" where
  "sort_by_score_desc evs = sort_key (\<lambda>ev. - score ev) evs"

definition retrieve_evidence :: "string option \<Rightarrow> string option \<Rightarrow> plan \<Rightarrow> evidence list" where
  "retrieve_evidence q w pl =
     py_slice_to (max_evidence pl) (sort_by_score_desc (text_evidence @ table_evidence))"

subsection \<open>generate\_answer\<close>

definition make_snippet :: "string \<Rightarrow> string" where
  "make_snippet c = (if length c > 200 then take 200 c @ ''...'' else c)"

definition make_citation :: "evidence \<Rightarrow> error + citation" where
  "make_citation ev =
     (let cit = \<lparr> c_type = ev_type ev, c_document_id = document_id ev, c_page = page ev,
                  snippet = make_snippet (content ev), c_score = score ev,
                  c_chunk_id = None, c_table_id = None \<rparr>
      in if ev_type ev = ''text_chunk'' then
           (case chunk_id ev of
              None \<Rightarrow> Inl (KeyError ''chunk_id'')
            | Some c \<Rightarrow> Inr (cit\<lparr>c_chunk_id := Some c\<rparr>))
         else if ev_type ev = ''table'' then
           (case table_id ev of
              None \<Rightarrow> Inl (KeyError ''table_id'')
            | Some t \<Rightarrow> Inr (cit\<lparr>c_table_id := Some t\<rparr>))
         else Inr cit)"

text \<open>The citation loop: the first missing key raises and ends the loop.\<close>

fun build_citations :: "evidence list \<Rightarrow> error + citation list" where
  "build_citations [] = Inr []"
| "build_citations (ev # evs) =
     (case make_citation ev of
        Inl e \<Rightarrow> Inl e
      | Inr c \<Rightarrow> (case build_citations evs of Inl e \<Rightarrow> Inl e | Inr cs \<Rightarrow> Inr (c # cs)))"

text \<open>The evidence lines of the answer text, numbered from \<open>i\<close>.\<close>

fun evidence_parts :: "nat \<Rightarrow> evidence list \<Rightarrow> string list" where
  "evidence_parts i [] = []"
| "evidence_parts i (ev # evs) =
     (if ev_type ev = ''text_chunk'' then
        [''Evidence '' @ str_nat i @ '': '' @ take 100 (content ev) @ ''...'']
      else if ev_type ev = ''table'' then
        [''Evidence '' @ str_nat i @ '': Table data from '' @
           (case title ev of None \<Rightarrow> ''unknown table'' | Some t \<Rightarrow> t)]
      else [])
     @ evidence_parts (Suc i) evs"

definition generate_answer_text :: "string option \<Rightarrow> evidence list \<Rightarrow> string" where
  "generate_answer_text q evs =
     (if evs = [] then ''I cannot provide a reliable answer based on the available evidence.''
      else join '' ''
        ([''Based on the available evidence, I can provide the following answer to your question: ''
            @ [CHR 0x27] @ fmt_opt q @ [CHR 0x27]]
         @ evidence_parts 1 evs
         @ [''Please refer to the citations for the complete source information.'']))"

definition insufficient_answer :: answer where
  "insufficient_answer =
     \<lparr> answer_text = ''I cannot provide a reliable answer based on the available evidence. Please ensure you have uploaded relevant documents.'',
       confidence = 0,
       citations = [],
       answer_reasoning = \<lparr> r_approach = ''insufficient_evidence'', evidence_count = 0,
                            r_evidence_types = None, avg_evidence_score = None \<rparr> \<rparr>"

definition generate_answer :: "string option \<Rightarrow> evidence list \<Rightarrow> plan \<Rightarrow> error + answer" where
  "generate_answer q evs pl =
     (if evs = [] then Inr insufficient_answer
      else
        (case build_citations evs of
           Inl e \<Rightarrow> Inl e
         | Inr cs \<Rightarrow>
             (let avg_score = sum_list (map score evs) / real (length evs);
                  conf = min avg_score 0.95
              in Inr \<lparr> answer_text = generate_answer_text q evs,
                       confidence = conf,
                       citations = cs,
                       answer_reasoning =
                         \<lparr> r_approach = approach pl,
                           evidence_count = length evs,
                           r_evidence_types = Some (set (map ev_type evs)),
                           avg_evidence_score = Some avg_score \<rparr> \<rparr>)))"

subsection \<open>process\_question\<close>

definition process_question :: "question_data \<Rightarrow> error + rag_result" where
  "process_question qd =
     (let q = question qd;
          w = workspace_id qd;
          pl = plan_answer q w;
          evs = retrieve_evidence q w pl
      in case generate_answer q evs pl of
           Inl e \<Rightarrow> Inl e
         | Inr a \<Rightarrow>
             Inr \<lparr> res_session_id = session_id qd,
                   res_answer = answer_text a,
                   res_confidence = confidence a,
                   res_citations = citations a,
                   res_reasoning = answer_reasoning a,
                   evidence_used = length evs \<rparr>)"

section \<open>The embedding worker (embed\_worker.py)\<close>

subsection \<open>Data\<close>

text \<open>
  An embedding is the vector the model returns for one text. The loaded model is a
  parameter of the worker's functions: \<open>encode texts\<close> is the outcome of
  \<^verbatim>\<open>self.embedding_model.encode(texts)\<close>, an exception or a list of vectors.
\<close>

type_synonym embedding = "real list"

type_synonym provider = "string list \<Rightarrow> error + embedding list"

datatype metadata =
    ChunkMeta "string option" "string option" "int option" "int option"
  | TableMeta "string option" "string option" "int option"

record embedding_request =
  req_id :: string
  req_text :: string
  req_type :: string
  metadata :: metadata
  priority :: int

record embed_worker =
  batch_size :: int
  max_queue_size :: int
  request_queue :: "embedding_request list"
  processing :: bool

record chunk =
  ch_id :: "string option"
  ch_text :: "string option"
  section_name :: "string option"
  page_from :: "int option"
  page_to :: "int option"
  embedding :: "embedding option"

record chunks_data =
  cd_document_id :: "string option"
  chunks :: "chunk list option"

record column =
  col_name :: "string option"
  col_type :: "string option"
  col_unit :: "string option"

record schema =
  columns :: "column list option"

text \<open>Table cells are of any type \<open>'c\<close>; \<^verbatim>\<open>str\<close> on a cell is a parameter.\<close>

record 'c table =
  t_id :: "string option"
  t_schema :: "schema option"
  t_data :: "'c list list option"
  t_page :: "int option"
  schema_embedding :: "embedding option"
  content_embedding :: "embedding option"

record 'c tables_data =
  td_document_id :: "string option"
  tables :: "'c table list option"

subsection \<open>The bounded queue and add\_request\<close>

definition embed_worker_init :: "int \<Rightarrow> int \<Rightarrow> embed_worker" where
  "embed_worker_init bs mq =
     \<lparr> batch_size = bs, max_queue_size = mq, request_queue = [], processing = False \<rparr>"

text \<open>
  \<^verbatim>\<open>asyncio.Queue(maxsize).put(x)\<close>: with a positive \<^verbatim>\<open>maxsize\<close> a full
  queue suspends the caller until a slot is free; \<open>None\<close> is that suspension (with
  nobody draining the queue it never ends). A \<^verbatim>\<open>maxsize\<close> of zero or less is an
  unbounded queue.
\<close>

definition queue_put :: "int \<Rightarrow> 'a list \<Rightarrow> 'a \<Rightarrow> 'a list option" where
  "queue_put maxsize q x =
     (if 0 < maxsize \<and> maxsize \<le> int (length q) then None else Some (q @ [x]))"

definition add_request :: "embed_worker \<Rightarrow> embedding_request \<Rightarrow> (bool \<times> embed_worker) option" where
  "add_request w r =
     (if max_queue_size w \<le> int (length (request_queue w)) then Some (False, w)
      else
        (case queue_put (max_queue_size w) (request_queue w) r of
           None \<Rightarrow> None
         | Some q \<Rightarrow> Some (True, w\<lparr>request_queue := q\<rparr>)))"

text \<open>
  A producer that submits the requests one after the other, with no consumer running in
  between, and records what each call returned.
\<close>

fun submit_all :: "embed_worker \<Rightarrow> embedding_request list \<Rightarrow> (bool list \<times> embed_worker) option" where
  "submit_all w [] = Some ([], w)"
| "submit_all w (r # rs) =
     (case add_request w r of
        None \<Rightarrow> None
      | Some (b, w') \<Rightarrow>
          (case submit_all w' rs of
             None \<Rightarrow> None
           | Some (bs, w'') \<Rightarrow> Some (b # bs, w'')))"

subsection \<open>Calling the provider\<close>

text \<open>
  A function that reaches the provider returns, next to its result, the list of the calls
  it made (each call is the list of texts it passed).
\<close>

definition get_embeddings :: "provider \<Rightarrow> string list \<Rightarrow> string list list \<times> (error + embedding list)" where
  "get_embeddings encode texts = ([texts], encode texts)"

definition process_embeddings ::
  "provider \<Rightarrow> embedding_request list \<Rightarrow> string list list \<times> (error + embedding list)" where
  "process_embeddings encode requests = get_embeddings encode (map req_text requests)"

text \<open>
  \<^verbatim>\<open>_process_batch\<close> stores nothing yet: for each pair of
  \<^verbatim>\<open>zip(batch, embeddings)\<close> it logs the request id and the embedding's dimension.
  The result is that log.
\<close>

definition process_batch ::
  "provider \<Rightarrow> embedding_request list \<Rightarrow> string list list \<times> (error + (string \<times> nat) list)" where
  "process_batch encode batch =
     (case get_embeddings encode (map req_text batch) of
        (calls, Inl e) \<Rightarrow> (calls, Inl e)
      | (calls, Inr embeddings) \<Rightarrow>
          (calls, Inr (map (\<lambda>(req, emb). (req_id req, length emb)) (zip batch embeddings))))"

subsection \<open>process\_chunks\<close>

text \<open>\<^verbatim>\<open>chunk.get('text', '')\<close>.\<close>

definition chunk_text :: "chunk \<Rightarrow> string" where
  "chunk_text c = (case ch_text c of None \<Rightarrow> [] | Some t \<Rightarrow> t)"

fun chunk_requests ::
  "string option \<Rightarrow> embedding_request list \<Rightarrow> chunk list \<Rightarrow> embedding_request list" where
  "chunk_requests doc requests [] = requests"
| "chunk_requests doc requests (c # cs) =
     chunk_requests doc
       (requests @
        [\<lparr> req_id = (case ch_id c of None \<Rightarrow> ''chunk_'' @ str_nat (length requests) | Some i \<Rightarrow> i),
            req_text = chunk_text c,
            req_type = ''text'',
            metadata = ChunkMeta doc (section_name c) (page_from c) (page_to c),
            priority = 0 \<rparr>])
       cs"

text \<open>\<^verbatim>\<open>for chunk, embedding in zip(chunks, embeddings)\<close>: chunks beyond the shorter
  list are left as they are.\<close>

fun attach_embeddings :: "chunk list \<Rightarrow> embedding list \<Rightarrow> chunk list" where
  "attach_embeddings [] embs = []"
| "attach_embeddings (c # cs) [] = c # cs"
| "attach_embeddings (c # cs) (e # embs) = c\<lparr>embedding := Some e\<rparr> # attach_embeddings cs embs"

definition process_chunks ::
  "provider \<Rightarrow> chunks_data \<Rightarrow> string list list \<times> (error + chunks_data)" where
  "process_chunks encode cd =
     (let cs = (case chunks cd of None \<Rightarrow> [] | Some cs \<Rightarrow> cs)
      in if cs = [] then ([], Inr cd)
         else
           (case process_embeddings encode (chunk_requests (cd_document_id cd) [] cs) of
              (calls, Inl e) \<Rightarrow> (calls, Inl e)
            | (calls, Inr embeddings) \<Rightarrow>
                (calls, Inr (cd\<lparr>chunks := Some (attach_embeddings cs embeddings)\<rparr>))))"

subsection \<open>process\_tables\<close>

definition column_text :: "column \<Rightarrow> string" where
  "column_text col =
     ''Column: '' @ (case col_name col of None \<Rightarrow> ''unknown'' | Some n \<Rightarrow> n)
     @ '', Type: '' @ (case col_type col of None \<Rightarrow> ''unknown'' | Some t \<Rightarrow> t)
     @ (case col_unit col of
          None \<Rightarrow> []
        | Some u \<Rightarrow> if u = [] then [] else '', Unit: '' @ u)"

definition table_schema_to_text :: "schema option \<Rightarrow> string" where
  "table_schema_to_text sch =
     (case sch of
        None \<Rightarrow> []
      | Some s \<Rightarrow>
          (case columns s of
             None \<Rightarrow> []
           | Some cols \<Rightarrow> join ''; '' (map column_text cols)))"

definition table_content_to_text :: "('c \<Rightarrow> string) \<Rightarrow> 'c list list \<Rightarrow> string" where
  "table_content_to_text str data =
     (if data = [] then []
      else join ''; '' (map (\<lambda>row. join '', '' (map str row)) (take 5 data)))"

text \<open>\<^verbatim>\<open>table.get('data', [])\<close>.\<close>

definition table_data :: "'c table \<Rightarrow> 'c list list" where
  "table_data t = (case t_data t of None \<Rightarrow> [] | Some d \<Rightarrow> d)"

definition schema_request :: "string option \<Rightarrow> 'c table \<Rightarrow> embedding_request" where
  "schema_request doc t =
     \<lparr> req_id = (case t_id t of None \<Rightarrow> ''table'' | Some i \<Rightarrow> i) @ ''_schema'',
       req_text = table_schema_to_text (t_schema t),
       req_type = ''table_schema'',
       metadata = TableMeta doc (t_id t) (t_page t),
       priority = 0 \<rparr>"

definition content_request :: "('c \<Rightarrow> string) \<Rightarrow> string option \<Rightarrow> 'c table \<Rightarrow> embedding_request" where
  "content_request str doc t =
     \<lparr> req_id = (case t_id t of None \<Rightarrow> ''table'' | Some i \<Rightarrow> i) @ ''_content'',
       req_text = table_content_to_text str (table_data t),
       req_type = ''table_content'',
       metadata = TableMeta doc (t_id t) (t_page t),
       priority = 0 \<rparr>"

fun table_requests ::
  "('c \<Rightarrow> string) \<Rightarrow> string option \<Rightarrow> 'c table list \<Rightarrow> embedding_request list" where
  "table_requests str doc [] = []"
| "table_requests str doc (t # ts) =
     schema_request doc t # content_request str doc t # table_requests str doc ts"

text \<open>
  The attaching loop, for the tables from index \<open>i\<close> on: \<^verbatim>\<open>embeddings[i * 2]\<close> and
  \<^verbatim>\<open>embeddings[i * 2 + 1]\<close> raise \<^verbatim>\<open>IndexError\<close> past the end of the list.
\<close>

fun attach_table_embeddings :: "nat \<Rightarrow> 'c table list \<Rightarrow> embedding list \<Rightarrow> error + 'c table list" where
  "attach_table_embeddings i [] embs = Inr []"
| "attach_table_embeddings i (t # ts) embs =
     (if i * 2 + 1 < length embs then
        (case attach_table_embeddings (Suc i) ts embs of
           Inl e \<Rightarrow> Inl e
         | Inr ts' \<Rightarrow>
             Inr (t\<lparr> schema_embedding := Some (embs ! (i * 2)),
                     content_embedding := Some (embs ! (i * 2 + 1)) \<rparr> # ts'))
      else Inl IndexError)"

definition process_tables ::
  "('c \<Rightarrow> string) \<Rightarrow> provider \<Rightarrow> 'c tables_data \<Rightarrow> string list list \<times> (error + 'c tables_data)" where
  "process_tables str encode td =
     (let ts = (case tables td of None \<Rightarrow> [] | Some ts \<Rightarrow> ts)
      in if ts = [] then ([], Inr td)
         else
           (case process_embeddings encode (table_requests str (td_document_id td) ts) of
              (calls, Inl e) \<Rightarrow> (calls, Inl e)
            | (calls, Inr embeddings) \<Rightarrow>
                (case attach_table_embeddings 0 ts embeddings of
                   Inl e \<Rightarrow> (calls, Inl e)
                 | Inr ts' \<Rightarrow> (calls, Inr (td\<lparr>tables := Some ts'\<rparr>)))))"

section \<open>Predicates and inputs of the statements\<close>

text \<open>
  An evidence item carries the identifier its type asks for: then the citation loop
  raises no \<^verbatim>\<open>KeyError\<close>.
\<close>

definition has_citation_keys :: "evidence \<Rightarrow> bool" where
  "has_citation_keys ev =
     (if ev_type ev = ''text_chunk'' then chunk_id ev \<noteq> None
      else if ev_type ev = ''table'' then table_id ev \<noteq> None
      else True)"

text \<open>An evidence item whose content has 201 characters.\<close>

definition long_evidence :: evidence where
  "long_evidence =
     \<lparr> ev_type = ''text_chunk'', content = replicate 201 CHR ''a'', document_id = ''doc-1'',
       chunk_id = Some ''chunk-1'', table_id = None, page = Some 1, score = 0.85,
       source = None, title = None \<rparr>"


text \<open>A citation carries the type, document, page, score and identifier of an evidence item.\<close>

definition cites :: "citation \<Rightarrow> evidence \<Rightarrow> bool" where
  "cites c ev =
     (c_type c = ev_type ev \<and> c_document_id c = document_id ev \<and> c_page c = page ev \<and>
      c_score c = score ev \<and>
      (if ev_type ev = ''text_chunk'' then c_chunk_id c = chunk_id ev \<and> chunk_id ev \<noteq> None
       else if ev_type ev = ''table'' then c_table_id c = table_id ev \<and> table_id ev \<noteq> None
       else True))"

text \<open>One evidence item whose score, 0.3, is below the plan's threshold of 0.7.\<close>

definition low_evidence :: evidence where
  "low_evidence =
     \<lparr> ev_type = ''text_chunk'', content = ''Some unrelated content.'', document_id = ''doc-1'',
       chunk_id = Some ''chunk-1'', table_id = None, page = Some 1, score = 0.3,
       source = None, title = None \<rparr>"



text \<open>A request, for the concrete runs of the queue.\<close>

definition sample_request :: embedding_request where
  "sample_request =
     \<lparr> req_id = ''r'', req_text = ''some text'', req_type = ''text'',
       metadata = ChunkMeta None None None None, priority = 0 \<rparr>"

text \<open>
  A provider for the concrete runs: the vector of a text holds the length of the text. And a
  batch, a list of chunks and a list of tables (cells are strings, \<^verbatim>\<open>str\<close> is the
  identity on them); the second table has six rows.
\<close>

definition length_encode :: provider where
  "length_encode texts = Inr (map (\<lambda>t. [real (length t)]) texts)"

definition sample_batch :: "embedding_request list" where
  "sample_batch =
     [ \<lparr> req_id = ''r1'', req_text = ''abc'', req_type = ''text'',
         metadata = ChunkMeta None None None None, priority = 0 \<rparr>,
       \<lparr> req_id = ''r2'', req_text = ''hello'', req_type = ''text'',
         metadata = ChunkMeta None None None None, priority = 0 \<rparr> ]"

definition sample_chunks :: "chunk list" where
  "sample_chunks =
     [ \<lparr> ch_id = Some ''c1'', ch_text = Some ''abc'', section_name = None, page_from = Some 1,
         page_to = Some 1, embedding = None \<rparr>,
       \<lparr> ch_id = None, ch_text = Some ''hello'', section_name = None, page_from = Some 2,
         page_to = Some 2, embedding = None \<rparr> ]"

definition sample_tables :: "string table list" where
  "sample_tables =
     [ \<lparr> t_id = Some ''t1'',
         t_schema = Some \<lparr> columns = Some [\<lparr> col_name = Some ''temp'', col_type = Some ''float'',
                                             col_unit = Some ''C'' \<rparr>] \<rparr>,
         t_data = Some [[''1'', ''2''], [''3'', ''4'']],
         t_page = Some 1, schema_embedding = None, content_embedding = None \<rparr>,
       \<lparr> t_id = None, t_schema = None,
         t_data = Some [[''a''], [''b''], [''c''], [''d''], [''e''], [''f'']],
         t_page = Some 2, schema_embedding = None, content_embedding = None \<rparr> ]"

section \<open>Properties of the RAG worker\<close>

subsection \<open>The citation loop\<close>

lemma make_citation_ok:
  "has_citation_keys ev \<Longrightarrow> \<exists>c. make_citation ev = Inr c"
  by (auto simp: has_citation_keys_def make_citation_def Let_def split: if_splits option.splits)

lemma make_citation_fields:
  "make_citation ev = Inr c \<Longrightarrow>
     c_type c = ev_type ev \<and> c_document_id c = document_id ev \<and> c_page c = page ev \<and>
     c_score c = score ev \<and> snippet c = make_snippet (content ev) \<and>
     (ev_type ev = ''text_chunk'' \<longrightarrow> c_chunk_id c = chunk_id ev \<and> chunk_id ev \<noteq> None) \<and>
     (ev_type ev = ''table'' \<longrightarrow> c_table_id c = table_id ev \<and> table_id ev \<noteq> None)"
  by (auto simp: make_citation_def Let_def split: if_splits option.splits)

lemma build_citations_ok:
  "list_all has_citation_keys evs \<Longrightarrow> \<exists>cs. build_citations evs = Inr cs"
proof (induction evs)
  case Nil
  show ?case by simp
next
  case (Cons ev evs)
  then obtain c cs where "make_citation ev = Inr c" "build_citations evs = Inr cs"
    using make_citation_ok by fastforce
  then show ?case by simp
qed

lemma build_citations_rel:
  "build_citations evs = Inr cs \<Longrightarrow> list_all2 (\<lambda>ev c. make_citation ev = Inr c) evs cs"
  by (induction evs arbitrary: cs) (auto split: sum.splits)

lemma build_citations_length:
  "build_citations evs = Inr cs \<Longrightarrow> length cs = length evs"
  using build_citations_rel list_all2_lengthD by fastforce

lemma build_citations_nth:
  "build_citations evs = Inr cs \<Longrightarrow> i < length evs \<Longrightarrow> make_citation (evs ! i) = Inr (cs ! i)"
  using build_citations_rel list_all2_nthD by fastforce

lemma make_citation_cites: "make_citation ev = Inr c \<Longrightarrow> cites c ev"
  using make_citation_fields [of ev c] by (auto simp: cites_def)

lemma build_citations_cites:
  assumes "build_citations evs = Inr cs" and "c \<in> set cs"
  shows "\<exists>ev \<in> set evs. cites c ev"
proof -
  from assms(2) obtain i where i: "i < length cs" "cs ! i = c"
    by (auto simp: in_set_conv_nth)
  with assms(1) have "i < length evs" by (simp add: build_citations_length)
  with assms(1) i have "make_citation (evs ! i) = Inr c"
    using build_citations_nth by fastforce
  with \<open>i < length evs\<close> show ?thesis
    using make_citation_cites nth_mem by blast
qed

subsection \<open>Ranking and truncation\<close>

lemma sorted_pool:
  "sort_by_score_desc (text_evidence @ table_evidence) = text_evidence @ table_evidence"
  by (simp add: sort_by_score_desc_def text_evidence_def table_evidence_def)

lemma py_slice_to_take: "\<exists>k. py_slice_to n xs = take k xs"
  by (auto simp: py_slice_to_def)



lemma sort_by_score_desc_set: "set (sort_by_score_desc evs) = set evs"
  by (simp add: sort_by_score_desc_def)

lemma sort_by_score_desc_length: "length (sort_by_score_desc evs) = length evs"
  by (simp add: sort_by_score_desc_def)

lemma sort_by_score_desc_stable:
  "filter (\<lambda>ev. score ev = s) (sort_by_score_desc evs) = filter (\<lambda>ev. score ev = s) evs"
  using sort_key_stable [of "\<lambda>ev. - score ev" "- s" evs]
  by (simp add: sort_by_score_desc_def)



lemma pool_has_keys: "list_all has_citation_keys (text_evidence @ table_evidence)"
  by (simp add: text_evidence_def table_evidence_def has_citation_keys_def)

lemma retrieved_has_keys: "list_all has_citation_keys (retrieve_evidence q w pl)"
proof -
  obtain k where "retrieve_evidence q w pl = take k (text_evidence @ table_evidence)"
    unfolding retrieve_evidence_def sorted_pool using py_slice_to_take by blast
  with pool_has_keys show ?thesis
    by (metis append_take_drop_id list_all_append)
qed

lemma retrieved_length:
  "0 \<le> max_evidence pl \<Longrightarrow> int (length (retrieve_evidence q w pl)) \<le> max_evidence pl"
  unfolding retrieve_evidence_def py_slice_to_def by simp






subsection \<open>The synthesized answer\<close>

lemma generate_answer_empty: "generate_answer q [] pl = Inr insufficient_answer"
  by (simp add: generate_answer_def)

lemma generate_answer_Inr:
  "generate_answer q evs pl = Inr a \<Longrightarrow> evs \<noteq> [] \<Longrightarrow>
     build_citations evs = Inr (citations a) \<and>
     confidence a = min (sum_list (map score evs) / real (length evs)) 0.95 \<and>
     answer_text a = generate_answer_text q evs \<and>
     answer_reasoning a =
       \<lparr> r_approach = approach pl, evidence_count = length evs,
         r_evidence_types = Some (set (map ev_type evs)),
         avg_evidence_score = Some (sum_list (map score evs) / real (length evs)) \<rparr>"
  by (auto simp: generate_answer_def Let_def split: sum.splits)

lemma generate_answer_ok:
  "list_all has_citation_keys evs \<Longrightarrow> \<exists>a. generate_answer q evs pl = Inr a"
  using build_citations_ok [of evs]
  by (auto simp: generate_answer_def Let_def)

lemma generate_answer_confidence_le:
  assumes "generate_answer q evs pl = Inr a"
  shows "confidence a \<le> 0.95"
proof (cases "evs = []")
  case True
  with assms show ?thesis by (auto simp: generate_answer_def insufficient_answer_def)
next
  case False
  with assms generate_answer_Inr [of q evs pl a]
  have "confidence a = min (sum_list (map score evs) / real (length evs)) 0.95" by blast
  then show ?thesis by (simp only: min.cobounded2)
qed

lemma process_question_confidence_le:
  "process_question qd = Inr r \<Longrightarrow> res_confidence r \<le> 0.95"
  using generate_answer_confidence_le
  by (auto simp: process_question_def Let_def split: sum.splits)

text \<open>
  Claim C4. When \<^verbatim>\<open>generate_answer\<close> returns for a non-empty evidence list, the
  confidence of the answer is the smaller of the mean evidence score and 0.95; every answer
  it returns, the insufficient-evidence one included, has a confidence of at most 0.95, and
  so has every result of \<^verbatim>\<open>process_question\<close>. \<^verbatim>\<open>generate_answer\<close> does
  return whenever each item carries the identifier of its type.
\<close>

theorem confidence_is_capped_mean:
  "(generate_answer q evs pl = Inr a \<longrightarrow>
      confidence a \<le> 0.95 \<and>
      (evs \<noteq> [] \<longrightarrow> confidence a = min (sum_list (map score evs) / real (length evs)) 0.95)) \<and>
   (list_all has_citation_keys evs \<longrightarrow> (\<exists>b. generate_answer q evs pl = Inr b)) \<and>
   (process_question qd = Inr r \<longrightarrow> res_confidence r \<le> 0.95)"
  using generate_answer_confidence_le [of q evs pl a] generate_answer_Inr [of q evs pl a]
    generate_answer_ok [of evs q pl] process_question_confidence_le [of qd r]
  by blast

theorem confidence_is_capped_mean_witness:
  "\<exists>a. generate_answer (Some ''Why?'') text_evidence (plan_answer None None) = Inr a \<and>
       confidence a = 0.785 \<and> confidence a \<le> 0.95"
proof -
  have wf: "list_all has_citation_keys text_evidence"
    by (simp add: text_evidence_def has_citation_keys_def)
  have ne: "text_evidence \<noteq> []"
    by (simp add: text_evidence_def)
  have m: "min (sum_list (map score text_evidence) / real (length text_evidence)) 0.95 = 0.785"
    by (simp add: text_evidence_def)
  from wf confidence_is_capped_mean [of "Some ''Why?''" text_evidence "plan_answer None None"]
  obtain b where b: "generate_answer (Some ''Why?'') text_evidence (plan_answer None None) = Inr b"
    by blast
  with ne m confidence_is_capped_mean [of "Some ''Why?''" text_evidence "plan_answer None None" b]
  have "confidence b = 0.785 \<and> confidence b \<le> 0.95" by simp
  with b show ?thesis by blast
qed

text \<open>
  Claim C5, as stated: every snippet has at most 200 characters. The citation built from
  a content of 201 characters has a snippet of 203 characters: the first 200 and the
  three dots.
\<close>

theorem snippet_longer_than_200:
  "length (content long_evidence) = 201 \<and>
   build_citations [long_evidence] =
     Inr [\<lparr> c_type = ''text_chunk'', c_document_id = ''doc-1'', c_page = Some 1,
            snippet = replicate 200 CHR ''a'' @ ''...'', c_score = 0.85,
            c_chunk_id = Some ''chunk-1'', c_table_id = None \<rparr>] \<and>
   length (replicate 200 CHR ''a'' @ ''...'') = 203"
  by (simp add: long_evidence_def make_citation_def make_snippet_def)

text \<open>
  Claim C5, amended. The snippet of the \<open>i\<close>-th citation is the content of the
  \<open>i\<close>-th evidence item when that has at most 200 characters, and otherwise its first
  200 characters followed by \<^verbatim>\<open>...\<close>; so a snippet has at most 203 characters,
  and exactly 203 when the content was cut.
\<close>

theorem snippet_truncation:
  assumes "generate_answer q evs pl = Inr a" and "i < length evs"
  shows "snippet (citations a ! i) =
           (if 200 < length (content (evs ! i)) then take 200 (content (evs ! i)) @ ''...''
            else content (evs ! i)) \<and>
         length (snippet (citations a ! i)) \<le> 203 \<and>
         (200 < length (content (evs ! i)) \<longrightarrow> length (snippet (citations a ! i)) = 203)"
proof -
  from assms have "evs \<noteq> []" by auto
  with assms have "build_citations evs = Inr (citations a)"
    using generate_answer_Inr by blast
  with assms have "make_citation (evs ! i) = Inr (citations a ! i)"
    using build_citations_nth by blast
  then have "snippet (citations a ! i) = make_snippet (content (evs ! i))"
    using make_citation_fields by blast
  then show ?thesis by (simp add: make_snippet_def)
qed

theorem snippet_truncation_witness:
  "\<exists>a. generate_answer None [long_evidence] (plan_answer None None) = Inr a \<and>
       snippet (citations a ! 0) = replicate 200 CHR ''a'' @ ''...'' \<and>
       length (snippet (citations a ! 0)) = 203"
proof -
  have "list_all has_citation_keys [long_evidence]"
    by (simp add: long_evidence_def has_citation_keys_def)
  then obtain a where a: "generate_answer None [long_evidence] (plan_answer None None) = Inr a"
    using generate_answer_ok by blast
  from snippet_truncation [OF a, of 0] have
    "snippet (citations a ! 0) = replicate 200 CHR ''a'' @ ''...'' \<and>
     length (snippet (citations a ! 0)) = 203"
    by (simp add: long_evidence_def)
  with a show ?thesis by blast
qed

lemma generate_answer_citations:
  assumes "generate_answer q evs pl = Inr a"
  shows "length (citations a) = length evs \<and> (\<forall>c \<in> set (citations a). \<exists>ev \<in> set evs. cites c ev)"
proof (cases "evs = []")
  case True
  with assms show ?thesis by (auto simp: generate_answer_def insufficient_answer_def)
next
  case False
  with assms have "build_citations evs = Inr (citations a)"
    using generate_answer_Inr by blast
  then show ?thesis
    using build_citations_length build_citations_cites by blast
qed

text \<open>
  Claim C8. An answer of \<^verbatim>\<open>generate_answer\<close> has one citation per evidence item it
  was given, and each citation carries the type, document, page, score and identifier of
  an item of that list. Fed with the list \<^verbatim>\<open>retrieve_evidence\<close> returns for the same
  plan, as \<^verbatim>\<open>process_question\<close> does, it returns an answer whose citations are at
  most \<^verbatim>\<open>max_evidence\<close> many, for every plan with a non-negative
  \<^verbatim>\<open>max_evidence\<close>, the plan of \<^verbatim>\<open>plan_answer\<close> among them.
\<close>

theorem citations_come_from_evidence:
  "(generate_answer q evs pl = Inr a \<longrightarrow>
      length (citations a) = length evs \<and> (\<forall>c \<in> set (citations a). \<exists>ev \<in> set evs. cites c ev)) \<and>
   (0 \<le> max_evidence pl \<longrightarrow>
      (\<exists>b. generate_answer q (retrieve_evidence q w pl) pl = Inr b \<and>
           int (length (citations b)) \<le> max_evidence pl \<and>
           (\<forall>c \<in> set (citations b). \<exists>ev \<in> set (retrieve_evidence q w pl). cites c ev))) \<and>
   (\<exists>r. process_question qd = Inr r \<and>
        int (length (res_citations r)) \<le> max_evidence (plan_answer (question qd) (workspace_id qd)) \<and>
        (\<forall>c \<in> set (res_citations r).
           \<exists>ev \<in> set (retrieve_evidence (question qd) (workspace_id qd)
                         (plan_answer (question qd) (workspace_id qd))). cites c ev))"
proof -
  have pipeline: "\<exists>b. generate_answer q' (retrieve_evidence q' w' pl') pl' = Inr b \<and>
           int (length (citations b)) \<le> max_evidence pl' \<and>
           (\<forall>c \<in> set (citations b). \<exists>ev \<in> set (retrieve_evidence q' w' pl'). cites c ev)"
    if "0 \<le> max_evidence pl'" for q' w' pl'
  proof -
    obtain b where b: "generate_answer q' (retrieve_evidence q' w' pl') pl' = Inr b"
      using generate_answer_ok [OF retrieved_has_keys] by blast
    with generate_answer_citations [OF b] retrieved_length [OF that, of q' w'] show ?thesis
      by simp
  qed
  have "0 \<le> max_evidence (plan_answer (question qd) (workspace_id qd))"
    by (simp add: plan_answer_def)
  from pipeline [OF this, of "question qd" "workspace_id qd"]
  have "\<exists>r. process_question qd = Inr r \<and>
        int (length (res_citations r)) \<le> max_evidence (plan_answer (question qd) (workspace_id qd)) \<and>
        (\<forall>c \<in> set (res_citations r).
           \<exists>ev \<in> set (retrieve_evidence (question qd) (workspace_id qd)
                         (plan_answer (question qd) (workspace_id qd))). cites c ev)"
    by (auto simp: process_question_def Let_def)
  with pipeline [of pl q w] generate_answer_citations [of q evs pl a] show ?thesis
    by blast
qed

theorem citations_come_from_evidence_witness:
  "0 \<le> max_evidence (plan_answer None None) \<and>
   (\<exists>b. generate_answer None (retrieve_evidence None None (plan_answer None None))
          (plan_answer None None) = Inr b \<and>
        length (citations b) = 3 \<and>
        int (length (citations b)) \<le> max_evidence (plan_answer None None) \<and>
        (\<forall>c \<in> set (citations b).
           \<exists>ev \<in> set (retrieve_evidence None None (plan_answer None None)). cites c ev))"
proof -
  let ?pl = "plan_answer None None"
  let ?evs = "retrieve_evidence None None ?pl"
  have m: "0 \<le> max_evidence ?pl"
    by (simp add: plan_answer_def)
  have r: "length ?evs = 3"
    unfolding retrieve_evidence_def sorted_pool
    by (simp add: py_slice_to_def plan_answer_def text_evidence_def table_evidence_def)
  from m citations_come_from_evidence [of None ?evs ?pl _ None]
  obtain b where b: "generate_answer None ?evs ?pl = Inr b"
    "int (length (citations b)) \<le> max_evidence ?pl"
    "\<forall>c \<in> set (citations b). \<exists>ev \<in> set ?evs. cites c ev"
    by blast
  from citations_come_from_evidence [of None ?evs ?pl b] b(1)
  have "length (citations b) = length ?evs"
    by blast
  with r have "length (citations b) = 3" by simp
  with m b show ?thesis by blast
qed

text \<open>
  Claim C1. The claim asks for the insufficient-evidence answer, with confidence 0 and no
  citation, whenever every score is below the plan's threshold. \<^verbatim>\<open>generate_answer\<close>
  tests only whether the evidence list is empty: for the single item of score 0.3 under
  the threshold 0.7 it returns the synthesized answer, with confidence 0.3 and one citation.
\<close>

theorem below_threshold_evidence_is_answered:
  "score low_evidence < confidence_threshold (plan_answer None None) \<and>
   generate_answer (Some ''What is the optimal temperature for enzyme activity?'') [low_evidence]
       (plan_answer None None) =
     Inr \<lparr> answer_text =
             generate_answer_text (Some ''What is the optimal temperature for enzyme activity?'')
               [low_evidence],
           confidence = 0.3,
           citations =
             [\<lparr> c_type = ''text_chunk'', c_document_id = ''doc-1'', c_page = Some 1,
                snippet = ''Some unrelated content.'', c_score = 0.3,
                c_chunk_id = Some ''chunk-1'', c_table_id = None \<rparr>],
           answer_reasoning =
             \<lparr> r_approach = ''hybrid_retrieval'', evidence_count = 1,
               r_evidence_types = Some {''text_chunk''},
               avg_evidence_score = Some 0.3 \<rparr> \<rparr>"
  by (simp add: low_evidence_def plan_answer_def generate_answer_def make_citation_def
      make_snippet_def Let_def)




section \<open>Properties of the embedding worker\<close>

subsection \<open>The bounded queue\<close>

lemma add_request_returns:
  "\<exists>b w'. add_request w r = Some (b, w')"
  by (auto simp: add_request_def queue_put_def)

lemma add_request_full:
  "max_queue_size w \<le> int (length (request_queue w)) \<Longrightarrow> add_request w r = Some (False, w)"
  by (simp add: add_request_def)

lemma add_request_room:
  "int (length (request_queue w)) < max_queue_size w \<Longrightarrow>
     add_request w r = Some (True, w\<lparr>request_queue := request_queue w @ [r]\<rparr>)"
  by (simp add: add_request_def queue_put_def)

lemma add_request_bound:
  assumes "add_request w r = Some (b, w')" and "int (length (request_queue w)) \<le> max_queue_size w"
  shows "int (length (request_queue w')) \<le> max_queue_size w' \<and> max_queue_size w' = max_queue_size w"
  using assms by (auto simp: add_request_def queue_put_def split: if_splits)

text \<open>
  A run of submissions into a queue of capacity \<open>c\<close>: the first free slots are filled,
  every later submission is refused.
\<close>

lemma submit_all_result:
  assumes "max_queue_size w = int c" and "length (request_queue w) \<le> c"
  shows "submit_all w rs =
           Some (replicate (min (length rs) (c - length (request_queue w))) True @
                 replicate (length rs - (c - length (request_queue w))) False,
                 w\<lparr>request_queue := request_queue w @ take (c - length (request_queue w)) rs\<rparr>)"
  using assms
proof (induction rs arbitrary: w)
  case Nil
  then show ?case by simp
next
  case (Cons r rs)
  show ?case
  proof (cases "length (request_queue w) < c")
    case True
    let ?w' = "w\<lparr>request_queue := request_queue w @ [r]\<rparr>"
    from True Cons.prems have step: "add_request w r = Some (True, ?w')"
      by (simp add: add_request_room)
    have "max_queue_size ?w' = int c" "length (request_queue ?w') \<le> c"
      using True Cons.prems by simp_all
    note ih = Cons.IH [OF this]
    from True obtain k where k: "c - length (request_queue w) = Suc k"
      "c - Suc (length (request_queue w)) = k"
      by (metis Suc_diff_Suc)
    from ih step show ?thesis
      by (simp add: k)
  next
    case False
    with Cons.prems have full: "length (request_queue w) = c" by simp
    with Cons.prems have step: "add_request w r = Some (False, w)"
      by (simp add: add_request_full)
    from Cons.IH [OF Cons.prems] step full show ?thesis
      by simp
  qed
qed

text \<open>
  Claim C2. On a queue that holds as many requests as its capacity, \<^verbatim>\<open>add_request\<close>
  returns \<^verbatim>\<open>False\<close> and leaves the queue as it is. It always returns (it never waits
  for a slot), and a queue within its capacity stays within it, after one submission and
  after any run of them. Of 1100 submissions in a row to a new worker of capacity 1000,
  exactly 100 return \<^verbatim>\<open>False\<close>, and the queue ends with 1000 requests.
\<close>

theorem add_request_backpressure:
  "(int (length (request_queue w)) = max_queue_size w \<longrightarrow> add_request w r = Some (False, w)) \<and>
   (\<exists>b w'. add_request w r = Some (b, w') \<and>
      (int (length (request_queue w)) \<le> max_queue_size w \<longrightarrow>
         int (length (request_queue w')) \<le> max_queue_size w)) \<and>
   (max_queue_size w = int c \<and> length (request_queue w) \<le> c \<longrightarrow>
      (\<exists>bs w'. submit_all w rs = Some (bs, w') \<and> length bs = length rs \<and>
         length (request_queue w') \<le> c)) \<and>
   (length rs = 1100 \<longrightarrow>
      (\<exists>bs w'. submit_all (embed_worker_init n 1000) rs = Some (bs, w') \<and>
         length bs = 1100 \<and> length (filter (\<lambda>b. \<not> b) bs) = 100 \<and>
         length (request_queue w') = 1000))"
proof -
  have full: "int (length (request_queue w)) = max_queue_size w \<longrightarrow> add_request w r = Some (False, w)"
    by (simp add: add_request_full)
  obtain b w' where s: "add_request w r = Some (b, w')"
    using add_request_returns by blast
  then have one: "\<exists>b w'. add_request w r = Some (b, w') \<and>
      (int (length (request_queue w)) \<le> max_queue_size w \<longrightarrow>
         int (length (request_queue w')) \<le> max_queue_size w)"
    using add_request_bound [OF s] by auto
  have many: "\<exists>bs w'. submit_all w rs = Some (bs, w') \<and> length bs = length rs \<and>
         length (request_queue w') \<le> c"
    if "max_queue_size w = int c" "length (request_queue w) \<le> c"
    using submit_all_result [OF that, of rs] that by auto
  have scenario: "\<exists>bs w'. submit_all (embed_worker_init n 1000) rs = Some (bs, w') \<and>
         length bs = 1100 \<and> length (filter (\<lambda>b. \<not> b) bs) = 100 \<and>
         length (request_queue w') = 1000" if "length rs = 1100"
  proof -
    have "max_queue_size (embed_worker_init n 1000) = int 1000"
      "length (request_queue (embed_worker_init n 1000)) \<le> 1000"
      by (simp_all add: embed_worker_init_def)
    from submit_all_result [OF this, of rs] that show ?thesis
      by (simp add: embed_worker_init_def)
  qed
  from full one many scenario show ?thesis by blast
qed

theorem add_request_backpressure_witness:
  "add_request ((embed_worker_init 32 2)\<lparr>request_queue := [sample_request, sample_request]\<rparr>)
       sample_request =
     Some (False, (embed_worker_init 32 2)\<lparr>request_queue := [sample_request, sample_request]\<rparr>) \<and>
   (\<exists>bs w'. submit_all (embed_worker_init 32 2) [sample_request, sample_request, sample_request] =
        Some (bs, w') \<and> length bs = 3 \<and> length (request_queue w') \<le> 2) \<and>
   (\<exists>bs w'. submit_all (embed_worker_init 32 1000) (replicate 1100 sample_request) = Some (bs, w') \<and>
      length bs = 1100 \<and> length (filter (\<lambda>b. \<not> b) bs) = 100 \<and>
      length (request_queue w') = 1000)"
proof -
  let ?w = "(embed_worker_init 32 2)\<lparr>request_queue := [sample_request, sample_request]\<rparr>"
  have "int (length (request_queue ?w)) = max_queue_size ?w"
    by (simp add: embed_worker_init_def)
  moreover have "length (replicate 1100 sample_request) = 1100"
    by simp
  ultimately have a: "add_request ?w sample_request = Some (False, ?w)"
    and b: "\<exists>bs w'. submit_all (embed_worker_init 32 1000) (replicate 1100 sample_request) = Some (bs, w') \<and>
      length bs = 1100 \<and> length (filter (\<lambda>b. \<not> b) bs) = 100 \<and>
      length (request_queue w') = 1000"
    using add_request_backpressure [of ?w sample_request 0 "replicate 1100 sample_request" 32]
    by blast+
  have "max_queue_size (embed_worker_init 32 2) = int 2 \<and>
        length (request_queue (embed_worker_init 32 2)) \<le> 2"
    by (simp add: embed_worker_init_def)
  then have "\<exists>bs w'. submit_all (embed_worker_init 32 2) [sample_request, sample_request, sample_request] =
        Some (bs, w') \<and> length bs = 3 \<and> length (request_queue w') \<le> 2"
    using add_request_backpressure
      [of "embed_worker_init 32 2" sample_request 2 "[sample_request, sample_request, sample_request]"]
    by auto
  with a b show ?thesis by blast
qed

subsection \<open>Batches and chunks\<close>

lemma chunk_requests_texts:
  "map req_text (chunk_requests doc acc cs) = map req_text acc @ map chunk_text cs"
  by (induction cs arbitrary: acc) (simp_all add: chunk_text_def)

lemma attach_embeddings_length: "length (attach_embeddings cs embs) = length cs"
  by (induction cs embs rule: attach_embeddings.induct) simp_all

lemma attach_embeddings_nth:
  "i < length cs \<Longrightarrow>
     attach_embeddings cs embs ! i =
       (if i < length embs then (cs ! i)\<lparr>embedding := Some (embs ! i)\<rparr> else cs ! i)"
proof (induction cs embs arbitrary: i rule: attach_embeddings.induct)
  case (1 embs)
  then show ?case by simp
next
  case (2 c cs)
  then show ?case by simp
next
  case (3 c cs e embs)
  then show ?case by (cases i) simp_all
qed

lemma process_batch_calls: "fst (process_batch encode batch) = [map req_text batch]"
  by (simp add: process_batch_def get_embeddings_def split: sum.splits)

lemma process_batch_log:
  assumes "encode (map req_text batch) = Inr embs"
  shows "snd (process_batch encode batch) =
           Inr (map (\<lambda>(req, emb). (req_id req, length emb)) (zip batch embs))"
  using assms by (simp add: process_batch_def get_embeddings_def)

text \<open>
  Claim C3. \<^verbatim>\<open>_process_batch\<close> calls the provider exactly once, with the texts of
  the batch in request order, also when the call fails. When it succeeds, the \<open>i\<close>-th
  entry of the log pairs the id of the \<open>i\<close>-th request with the dimension of the
  \<open>i\<close>-th returned vector. \<^verbatim>\<open>process_chunks\<close> on a non-empty chunk list makes
  one call with the chunk texts in order and stores the \<open>i\<close>-th returned vector in the
  \<open>i\<close>-th chunk; a chunk for which the provider returned no vector is left unchanged.
\<close>

theorem batch_order_preserved:
  "fst (process_batch encode batch) = [map req_text batch] \<and>
   (encode (map req_text batch) = Inr embs \<longrightarrow>
      (\<exists>log. snd (process_batch encode batch) = Inr log \<and>
         length log = min (length batch) (length embs) \<and>
         (\<forall>i < length log. log ! i = (req_id (batch ! i), length (embs ! i))))) \<and>
   (chunks cd = Some cs \<and> cs \<noteq> [] \<longrightarrow>
      fst (process_chunks encode cd) = [map chunk_text cs] \<and>
      (encode (map chunk_text cs) = Inr embs' \<longrightarrow>
         (\<exists>cs'. snd (process_chunks encode cd) = Inr (cd\<lparr>chunks := Some cs'\<rparr>) \<and>
            length cs' = length cs \<and>
            (\<forall>i < length cs.
               cs' ! i = (if i < length embs' then (cs ! i)\<lparr>embedding := Some (embs' ! i)\<rparr>
                          else cs ! i)))))"
proof -
  have batch: "\<exists>log. snd (process_batch encode batch) = Inr log \<and>
         length log = min (length batch) (length embs) \<and>
         (\<forall>i < length log. log ! i = (req_id (batch ! i), length (embs ! i)))"
    if "encode (map req_text batch) = Inr embs"
    using that process_batch_log [of encode batch embs] by simp
  have calls: "fst (process_chunks encode cd) = [map chunk_text cs]"
    if "chunks cd = Some cs" "cs \<noteq> []"
    using that
    by (simp add: process_chunks_def process_embeddings_def get_embeddings_def
        chunk_requests_texts split: sum.splits)
  have attach: "\<exists>cs'. snd (process_chunks encode cd) = Inr (cd\<lparr>chunks := Some cs'\<rparr>) \<and>
            length cs' = length cs \<and>
            (\<forall>i < length cs.
               cs' ! i = (if i < length embs' then (cs ! i)\<lparr>embedding := Some (embs' ! i)\<rparr>
                          else cs ! i))"
    if "chunks cd = Some cs" "cs \<noteq> []" "encode (map chunk_text cs) = Inr embs'"
  proof -
    from that have "snd (process_chunks encode cd) =
        Inr (cd\<lparr>chunks := Some (attach_embeddings cs embs')\<rparr>)"
      by (simp add: process_chunks_def process_embeddings_def get_embeddings_def
          chunk_requests_texts)
    then show ?thesis
      using attach_embeddings_length attach_embeddings_nth by blast
  qed
  from process_batch_calls [of encode batch] batch calls attach show ?thesis
    by blast
qed

theorem batch_order_preserved_witness:
  "fst (process_batch length_encode sample_batch) = [[''abc'', ''hello'']] \<and>
   (\<exists>log. snd (process_batch length_encode sample_batch) = Inr log \<and>
      length log = 2 \<and> log ! 0 = (''r1'', 1) \<and> log ! 1 = (''r2'', 1)) \<and>
   fst (process_chunks length_encode \<lparr>cd_document_id = Some ''doc-1'', chunks = Some sample_chunks\<rparr>)
     = [[''abc'', ''hello'']] \<and>
   (\<exists>cs'. snd (process_chunks length_encode
                 \<lparr>cd_document_id = Some ''doc-1'', chunks = Some sample_chunks\<rparr>)
            = Inr \<lparr>cd_document_id = Some ''doc-1'', chunks = Some cs'\<rparr> \<and>
          length cs' = 2 \<and>
          embedding (cs' ! 0) = Some [3] \<and>
          embedding (cs' ! 1) = Some [5])"
proof -
  let ?cd = "\<lparr>cd_document_id = Some ''doc-1'', chunks = Some sample_chunks\<rparr>"
  let ?embs = "[[3], [5 :: real]]"
  have e1: "length_encode (map req_text sample_batch) = Inr ?embs"
    by (simp add: length_encode_def sample_batch_def)
  have e2: "length_encode (map chunk_text sample_chunks) = Inr ?embs"
    by (simp add: length_encode_def sample_chunks_def chunk_text_def)
  have c: "chunks ?cd = Some sample_chunks \<and> sample_chunks \<noteq> []"
    by (simp add: sample_chunks_def)
  note t = batch_order_preserved [of length_encode sample_batch ?embs ?cd sample_chunks ?embs]
  from t have "fst (process_batch length_encode sample_batch) = [[''abc'', ''hello'']]"
    by (simp add: sample_batch_def)
  moreover from t e1 obtain log where "snd (process_batch length_encode sample_batch) = Inr log"
    "length log = min (length sample_batch) (length ?embs)"
    "\<forall>i < length log. log ! i = (req_id (sample_batch ! i), length (?embs ! i))"
    by blast
  then have "\<exists>log. snd (process_batch length_encode sample_batch) = Inr log \<and>
      length log = 2 \<and> log ! 0 = (''r1'', 1) \<and> log ! 1 = (''r2'', 1)"
    by (simp add: sample_batch_def)
  moreover from t c have "fst (process_chunks length_encode ?cd) = [[''abc'', ''hello'']]"
    by (simp add: sample_chunks_def chunk_text_def)
  moreover from t c e2 obtain cs' where
    "snd (process_chunks length_encode ?cd) = Inr (?cd\<lparr>chunks := Some cs'\<rparr>)"
    "length cs' = length sample_chunks"
    "\<forall>i < length sample_chunks.
       cs' ! i = (if i < length ?embs then (sample_chunks ! i)\<lparr>embedding := Some (?embs ! i)\<rparr>
                  else sample_chunks ! i)"
    by blast
  then have "\<exists>cs'. snd (process_chunks length_encode ?cd)
            = Inr \<lparr>cd_document_id = Some ''doc-1'', chunks = Some cs'\<rparr> \<and>
          length cs' = 2 \<and>
          embedding (cs' ! 0) = Some [3] \<and>
          embedding (cs' ! 1) = Some [5]"
    by (simp add: sample_chunks_def)
  ultimately show ?thesis by blast
qed

subsection \<open>Tables\<close>

lemma table_content_first_rows:
  "table_content_to_text str d = table_content_to_text str (take 5 d)"
  by (cases d) (simp_all add: table_content_to_text_def)

lemma table_requests_length: "length (table_requests str doc ts) = 2 * length ts"
  by (induction ts) simp_all

lemma table_requests_nth:
  "i < length ts \<Longrightarrow>
     table_requests str doc ts ! (2 * i) = schema_request doc (ts ! i) \<and>
     table_requests str doc ts ! (2 * i + 1) = content_request str doc (ts ! i)"
proof (induction ts arbitrary: i)
  case Nil
  then show ?case by simp
next
  case (Cons t ts)
  then show ?case by (cases i) simp_all
qed

lemma attach_table_embeddings_ok:
  "(k + length ts) * 2 \<le> length embs \<Longrightarrow>
     \<exists>ts'. attach_table_embeddings k ts embs = Inr ts' \<and> length ts' = length ts \<and>
       (\<forall>i < length ts.
          ts' ! i = (ts ! i)\<lparr> schema_embedding := Some (embs ! ((k + i) * 2)),
                               content_embedding := Some (embs ! ((k + i) * 2 + 1)) \<rparr>)"
proof (induction ts arbitrary: k)
  case Nil
  then show ?case by simp
next
  case (Cons t ts)
  then have "(Suc k + length ts) * 2 \<le> length embs" by simp
  from Cons.IH [OF this] obtain ts' where ts':
    "attach_table_embeddings (Suc k) ts embs = Inr ts'" "length ts' = length ts"
    "\<forall>i < length ts.
       ts' ! i = (ts ! i)\<lparr> schema_embedding := Some (embs ! ((Suc k + i) * 2)),
                           content_embedding := Some (embs ! ((Suc k + i) * 2 + 1)) \<rparr>"
    by blast
  let ?t' = "t\<lparr> schema_embedding := Some (embs ! (k * 2)),
                 content_embedding := Some (embs ! (k * 2 + 1)) \<rparr>"
  from Cons.prems ts'(1) have "attach_table_embeddings k (t # ts) embs = Inr (?t' # ts')"
    by simp
  moreover have "length (?t' # ts') = length (t # ts)"
    using ts'(2) by simp
  moreover have "(?t' # ts') ! i =
      ((t # ts) ! i)\<lparr> schema_embedding := Some (embs ! ((k + i) * 2)),
                       content_embedding := Some (embs ! ((k + i) * 2 + 1)) \<rparr>"
    if "i < length (t # ts)" for i
    using that ts'(3) by (cases i) simp_all
  ultimately show ?case by blast
qed

lemma attach_table_embeddings_short:
  "ts \<noteq> [] \<Longrightarrow> length embs < (k + length ts) * 2 \<Longrightarrow>
     attach_table_embeddings k ts embs = Inl IndexError"
proof (induction ts arbitrary: k)
  case Nil
  then show ?case by simp
next
  case (Cons t ts)
  show ?case
  proof (cases "ts = []")
    case True
    with Cons.prems show ?thesis by simp
  next
    case False
    from Cons.prems have "length embs < (Suc k + length ts) * 2" by simp
    from Cons.IH [OF False this] show ?thesis by simp
  qed
qed

text \<open>
  Claim C10. For a non-empty table list, \<^verbatim>\<open>process_tables\<close> builds two requests per
  table, in table order: at position \<open>2i\<close> the schema text of table \<open>i\<close>, at
  position \<open>2i + 1\<close> the content text of its first five rows at most. It calls the
  provider once with these texts and, when the provider returns at least two vectors per
  table, stores the vector of position \<open>2i\<close> as \<^verbatim>\<open>schema_embedding\<close> and the
  vector of position \<open>2i + 1\<close> as \<^verbatim>\<open>content_embedding\<close> of table \<open>i\<close>.
\<close>

theorem table_embeddings_by_position:
  assumes "tables td = Some ts" and "ts \<noteq> []"
    and "encode (map req_text (table_requests str (td_document_id td) ts)) = Inr embs"
    and "2 * length ts \<le> length embs"
  shows "length (table_requests str (td_document_id td) ts) = 2 * length ts \<and>
         (\<forall>i < length ts.
            req_text (table_requests str (td_document_id td) ts ! (2 * i)) =
              table_schema_to_text (t_schema (ts ! i)) \<and>
            req_type (table_requests str (td_document_id td) ts ! (2 * i)) = ''table_schema'' \<and>
            req_text (table_requests str (td_document_id td) ts ! (2 * i + 1)) =
              table_content_to_text str (take 5 (table_data (ts ! i))) \<and>
            req_type (table_requests str (td_document_id td) ts ! (2 * i + 1)) = ''table_content'') \<and>
         (\<exists>ts'. process_tables str encode td =
                  ([map req_text (table_requests str (td_document_id td) ts)],
                   Inr (td\<lparr>tables := Some ts'\<rparr>)) \<and>
                length ts' = length ts \<and>
                (\<forall>i < length ts.
                   ts' ! i = (ts ! i)\<lparr> schema_embedding := Some (embs ! (2 * i)),
                                        content_embedding := Some (embs ! (2 * i + 1)) \<rparr>))"
proof -
  let ?reqs = "table_requests str (td_document_id td) ts"
  have reqs: "req_text (?reqs ! (2 * i)) = table_schema_to_text (t_schema (ts ! i)) \<and>
            req_type (?reqs ! (2 * i)) = ''table_schema'' \<and>
            req_text (?reqs ! (2 * i + 1)) = table_content_to_text str (take 5 (table_data (ts ! i))) \<and>
            req_type (?reqs ! (2 * i + 1)) = ''table_content''" if "i < length ts" for i
    using table_requests_nth [OF that, of str "td_document_id td"]
      table_content_first_rows [of str "table_data (ts ! i)"]
    by (simp add: schema_request_def content_request_def table_data_def)
  from assms(4) have "(0 + length ts) * 2 \<le> length embs" by simp
  from attach_table_embeddings_ok [OF this] obtain ts' where ts':
    "attach_table_embeddings 0 ts embs = Inr ts'" "length ts' = length ts"
    "\<forall>i < length ts.
       ts' ! i = (ts ! i)\<lparr> schema_embedding := Some (embs ! ((0 + i) * 2)),
                           content_embedding := Some (embs ! ((0 + i) * 2 + 1)) \<rparr>"
    by blast
  from assms(1,2,3) ts'(1) have "process_tables str encode td =
      ([map req_text ?reqs], Inr (td\<lparr>tables := Some ts'\<rparr>))"
    by (simp add: process_tables_def process_embeddings_def get_embeddings_def)
  moreover from ts'(3) have "\<forall>i < length ts.
       ts' ! i = (ts ! i)\<lparr> schema_embedding := Some (embs ! (2 * i)),
                           content_embedding := Some (embs ! (2 * i + 1)) \<rparr>"
    by (simp add: mult.commute)
  ultimately show ?thesis
    using ts'(2) reqs table_requests_length [of str "td_document_id td" ts] by blast
qed

lemma sample_table_texts:
  "map req_text (table_requests (\<lambda>c. c) (Some ''doc-1'') sample_tables) =
     [''Column: temp, Type: float, Unit: C'', ''1, 2; 3, 4'', [], ''a; b; c; d; e'']"
  by (simp add: sample_tables_def schema_request_def content_request_def
      table_schema_to_text_def table_content_to_text_def column_text_def table_data_def)

theorem table_embeddings_by_position_witness:
  "\<exists>ts'. process_tables (\<lambda>c. c) length_encode
            \<lparr>td_document_id = Some ''doc-1'', tables = Some sample_tables\<rparr> =
          ([[''Column: temp, Type: float, Unit: C'', ''1, 2; 3, 4'', [], ''a; b; c; d; e'']],
           Inr \<lparr>td_document_id = Some ''doc-1'', tables = Some ts'\<rparr>) \<and>
        length ts' = 2 \<and>
        schema_embedding (ts' ! 0) = Some [34] \<and>
        content_embedding (ts' ! 0) = Some [10] \<and>
        schema_embedding (ts' ! 1) = Some [0] \<and>
        content_embedding (ts' ! 1) = Some [13]"
proof -
  let ?td = "\<lparr>td_document_id = Some ''doc-1'', tables = Some sample_tables\<rparr>"
  let ?embs = "[[34], [10], [0], [13 :: real]]"
  have h1: "tables ?td = Some sample_tables" by simp
  have h2: "sample_tables \<noteq> []" by (simp add: sample_tables_def)
  have h3: "length_encode (map req_text (table_requests (\<lambda>c. c) (td_document_id ?td) sample_tables))
              = Inr ?embs"
    by (simp add: sample_table_texts length_encode_def)
  have h4: "2 * length sample_tables \<le> length ?embs"
    by (simp add: sample_tables_def)
  from table_embeddings_by_position [where td = ?td and ts = sample_tables and encode = length_encode
      and str = "\<lambda>c. c" and embs = ?embs, OF h1 h2 h3 h4]
  obtain ts' where ts':
    "process_tables (\<lambda>c. c) length_encode ?td =
       ([map req_text (table_requests (\<lambda>c. c) (td_document_id ?td) sample_tables)],
        Inr (?td\<lparr>tables := Some ts'\<rparr>))"
    "length ts' = length sample_tables"
    "\<forall>i < length sample_tables.
       ts' ! i = (sample_tables ! i)\<lparr> schema_embedding := Some (?embs ! (2 * i)),
                                        content_embedding := Some (?embs ! (2 * i + 1)) \<rparr>"
    by blast
  have l: "length sample_tables = 2" by (simp add: sample_tables_def)
  from ts'(3) l have "ts' ! 0 = (sample_tables ! 0)\<lparr> schema_embedding := Some (?embs ! (2 * 0)),
                                        content_embedding := Some (?embs ! (2 * 0 + 1)) \<rparr>"
    and "ts' ! 1 = (sample_tables ! 1)\<lparr> schema_embedding := Some (?embs ! (2 * 1)),
                                        content_embedding := Some (?embs ! (2 * 1 + 1)) \<rparr>"
    by simp_all
  then have "schema_embedding (ts' ! 0) = Some [34]"
    "content_embedding (ts' ! 0) = Some [10]"
    "schema_embedding (ts' ! 1) = Some [0]"
    "content_embedding (ts' ! 1) = Some [13]"
    by simp_all
  moreover from ts'(1) have "process_tables (\<lambda>c. c) length_encode ?td =
          ([[''Column: temp, Type: float, Unit: C'', ''1, 2; 3, 4'', [], ''a; b; c; d; e'']],
           Inr \<lparr>td_document_id = Some ''doc-1'', tables = Some ts'\<rparr>)"
    by (simp add: sample_table_texts)
  ultimately show ?thesis using ts'(2) l by auto
qed

end
